theory Spec2Isabelle
  imports Main
begin

section \<open>Python values used by score\_feed\_parser.py\<close>

text \<open>
  A Python \<open>str\<close> is a sequence of Unicode code points, so a string is modelled as
  the list of its code points. The alias table of the source holds characters outside
  ASCII (U+F8FF, U+1FA9F, U+1F310, U+2753), and \<open>str.split()\<close> splits on Unicode
  white space, which is why bytes would not do.
\<close>

type_synonym str = "int list"

definition ascii :: "string \<Rightarrow> str" where
  "ascii s = map of_char s"

text \<open>
  The characters that the source names are written as their code points: 10 the line
  break, 32 the space, 40 and 41 the two parentheses, 45 the dash, 84 the letter \<open>T\<close> and
  96 the backtick. \<open>ascii\<close> turns a literal of ASCII characters into a string.
\<close>

text \<open>The exceptions the parsing functions can raise (all of them built-in).\<close>

datatype error = ValueError | IndexError | UnboundLocalError

text \<open>A cell of an output row: the source mixes \<open>int\<close>, \<open>str\<close> and \<open>None\<close> in one list.\<close>

datatype field = I int | S str | NoneF

definition opt :: "str option \<Rightarrow> field" where
  "opt v = (case v of None \<Rightarrow> NoneF | Some s \<Rightarrow> S s)"

subsection \<open>Built-in string and list operations\<close>

text \<open>
  \<open>xs[i]\<close>: a negative index counts from the end, an index out of range raises
  IndexError.
\<close>

definition py_index :: "'a list \<Rightarrow> int \<Rightarrow> error + 'a" where
  "py_index xs i =
     (if 0 \<le> i \<and> i < int (length xs) then Inr (xs ! nat i)
      else if i < 0 \<and> - int (length xs) \<le> i then Inr (xs ! nat (int (length xs) + i))
      else Inl IndexError)"

text \<open>\<open>xs.index(x)\<close>: the position of the first element equal to \<open>x\<close>, or ValueError.\<close>

fun index :: "'a list \<Rightarrow> 'a \<Rightarrow> error + nat" where
  "index [] x = Inl ValueError"
| "index (y # ys) x =
     (if y = x then Inr 0
      else case index ys x of Inl e \<Rightarrow> Inl e | Inr n \<Rightarrow> Inr (Suc n))"

text \<open>
  The characters on which \<open>str.split()\<close> without argument splits: those for which
  \<open>str.isspace\<close> holds.
\<close>

definition isspace :: "int \<Rightarrow> bool" where
  "isspace c \<longleftrightarrow>
     (9 \<le> c \<and> c \<le> 13) \<or> (28 \<le> c \<and> c \<le> 32) \<or> c = 133 \<or> c = 160 \<or> c = 5760 \<or>
     (8192 \<le> c \<and> c \<le> 8202) \<or> c = 8232 \<or> c = 8233 \<or> c = 8239 \<or> c = 8287 \<or> c = 12288"

text \<open>
  \<open>s.split()\<close>: the maximal runs of characters that are not white space, in order;
  \<open>cur\<close> is the run being read.
\<close>

fun split_acc :: "str \<Rightarrow> str \<Rightarrow> str list" where
  "split_acc cur [] = (if cur = [] then [] else [cur])"
| "split_acc cur (c # cs) =
     (if isspace c then (if cur = [] then split_acc [] cs else cur # split_acc [] cs)
      else split_acc (cur @ [c]) cs)"

definition split :: "str \<Rightarrow> str list" where
  "split s = split_acc [] s"

text \<open>
  \<open>s.split(sep)\<close> for a separator of one character (the source splits on \<open>T\<close>,
  \<open>(\<close>, \<open>-\<close> and the line break): every occurrence separates, empty segments are
  kept, and the result is never empty.
\<close>

fun split_sep :: "int \<Rightarrow> str \<Rightarrow> str list" where
  "split_sep sep [] = [[]]"
| "split_sep sep (c # cs) =
     (if c = sep then [] # split_sep sep cs
      else (case split_sep sep cs of [] \<Rightarrow> [[c]] | seg # segs \<Rightarrow> (c # seg) # segs))"

text \<open>\<open>p in s\<close> for strings: \<open>p\<close> occurs in \<open>s\<close> as a contiguous substring.\<close>

fun startswith :: "str \<Rightarrow> str \<Rightarrow> bool" where
  "startswith s [] = True"
| "startswith [] (p # ps) = False"
| "startswith (c # cs) (p # ps) = (c = p \<and> startswith cs ps)"

fun contains :: "str \<Rightarrow> str \<Rightarrow> bool" where
  "contains [] p = (p = [])"
| "contains (c # cs) p = (startswith (c # cs) p \<or> contains cs p)"

text \<open>\<open>" ".join(ws)\<close>.\<close>

fun join :: "str list \<Rightarrow> str" where
  "join [] = []"
| "join [w] = w"
| "join (w # ws) = w @ [32] @ join ws"

text \<open>
  The test that \<open>get_usernames\<close> and \<open>get_level\<close> both write inline:
  \<open>if x[0] == "`" and x[-1] == "`": x = x[1:-1]\<close>. Reading \<open>x[0]\<close> of an empty
  string raises IndexError.
\<close>

definition unquote :: "str \<Rightarrow> error + str" where
  "unquote x =
     (case py_index x 0 of Inl e \<Rightarrow> Inl e
      | Inr a \<Rightarrow>
          if a = 96 \<and> py_index x (- 1) = Inr 96 then Inr (drop 1 (take (length x - 1) x))
          else Inr x)"

section \<open>The parser\<close>

text \<open>
  The module-level dictionary \<open>platforms\<close>, in insertion order (a \<open>dict\<close> iterates
  in that order). The second alias of \<open>ios\<close> is the one character U+F8FF, code point
  63743, of the private use area; the alias of \<open>windows\<close> is U+1FA9F, the first alias of
  \<open>web\<close> is U+1F310 and the alias of \<open>unknown\<close> is U+2753.
\<close>

definition platforms :: "(str \<times> str list) list" where
  "platforms =
     [(ascii ''android'', [ascii ''Android'', ascii '':android:'', ascii ''<:android:'']),
      (ascii ''ios'', [ascii '':ios:'', [63743]]),
      (ascii ''windows'', [[129695]]),
      (ascii ''web'', [[127760], ascii ''web'']),
      (ascii ''unknown'', [[10067]])]"

text \<open>\<open>parse_time\<close>: \<open>time.split("T")\<close>, which cannot raise.\<close>

definition parse_time :: "str \<Rightarrow> str list" where
  "parse_time time = split_sep 84 time"

text \<open>
  \<open>get_usernames\<close> returns the list \<open>[era, mode, *usernames]\<close>, where
  \<open>usernames\<close> always has two elements, the second one possibly \<open>None\<close>; the only
  caller unpacks it into four variables, so the model returns a 4-tuple.
\<close>

definition get_usernames :: "str \<Rightarrow> error + (int \<times> int \<times> str \<times> str option)" where
  "get_usernames content =
     (let (era, split_content) =
            (if contains content (ascii ''(era 1)'') then (1, drop 2 (split content))
             else (2, split content))
      in case py_index split_content 0 of Inl e \<Rightarrow> Inl e
         | Inr raw0 \<Rightarrow>
        (case py_index split_content 2 of Inl e \<Rightarrow> Inl e
         | Inr raw2 \<Rightarrow>
        (case unquote raw0 of Inl e \<Rightarrow> Inl e
         | Inr username0 \<Rightarrow>
        (case unquote raw2 of Inl e \<Rightarrow> Inl e
         | Inr username2 \<Rightarrow>
        (case py_index split_content 1 of Inl e \<Rightarrow> Inl e
         | Inr w \<Rightarrow>
            let (username2', mode) =
                  (if w \<noteq> ascii ''and'' then (None, 1) else (Some username2, 2));
                mode' = (if contains content (ascii ''(2 players mode)'') then 2 else mode)
            in Inr (era, mode', username0, username2'))))))"

text \<open>
  The loop over \<open>platforms.items()\<close>: the name of the first entry whose alias list
  holds the token. \<open>None\<close> stands for the loop ending without its \<open>break\<close>, which
  leaves the local variable \<open>platform_name\<close> unassigned.
\<close>

fun find_platform :: "(str \<times> str list) list \<Rightarrow> str \<Rightarrow> str option" where
  "find_platform [] platform = None"
| "find_platform ((name, alias) # rest) platform =
     (if platform \<in> set alias then Some name else find_platform rest platform)"

text \<open>
  \<open>get_country_and_platform\<close>. Unpacking \<open>country, platform = data\<close> raises
  ValueError unless \<open>data\<close> has two elements; reading the unassigned
  \<open>platform_name\<close> raises UnboundLocalError (first as an argument of the call of
  \<open>logger.debug\<close> after the loop, and the \<open>return\<close> reads it as well). The calls of
  the logger themselves are below the level of the configured sink and leave no trace in
  any result, so they are not part of the model.
\<close>

definition get_country_and_platform :: "str \<Rightarrow> error + (str option \<times> str option)" where
  "get_country_and_platform content =
     (case py_index content (- 1) of Inl e \<Rightarrow> Inl e
      | Inr c \<Rightarrow>
          if c \<noteq> 41 then Inr (None, None)
          else
            let data = last (split_sep 40 (take (length content - 1) content));
                data = filter (\<lambda>x. x \<noteq> 32) data;
                data = split_sep 45 data
            in if length data = 1 then Inr (Some (hd data), None)
               else (case data of
                  [country, platform] \<Rightarrow>
                    (case find_platform platforms platform of
                       None \<Rightarrow> Inl UnboundLocalError
                     | Some platform_name \<Rightarrow> Inr (Some country, Some platform_name))
                | _ \<Rightarrow> Inl ValueError))"

text \<open>
  The loop of \<open>get_level\<close> that collects the words of the level name up to the first
  word starting with \<open>(\<close>.
\<close>

fun collect_level :: "str list \<Rightarrow> error + str list" where
  "collect_level [] = Inr []"
| "collect_level (word # rest) =
     (case py_index word 0 of Inl e \<Rightarrow> Inl e
      | Inr c \<Rightarrow>
          if c = 40 then Inr []
          else (case collect_level rest of Inl e \<Rightarrow> Inl e | Inr ws \<Rightarrow> Inr (word # ws)))"

definition get_level :: "str \<Rightarrow> error + str" where
  "get_level content =
     (let split_content = split content
      in case index split_content (ascii ''in'') of Inl e \<Rightarrow> Inl e
         | Inr in_word_index \<Rightarrow>
             let level_name_index = in_word_index + 1
             in (case collect_level (drop level_name_index split_content) of Inl e \<Rightarrow> Inl e
                 | Inr level_name \<Rightarrow> unquote (join level_name)))"

definition get_score :: "str \<Rightarrow> error + str" where
  "get_score content =
     (let split_content = split content
      in case index split_content (ascii ''in'') of Inl e \<Rightarrow> Inl e
         | Inr in_word_index \<Rightarrow>
             let level_score_index = int in_word_index - 1
             in py_index split_content level_score_index)"

text \<open>
  \<open>parse_content\<close> returns the list
  \<open>[era, mode, player1, player2, level, score, country, platform]\<close>.
\<close>

definition parse_content :: "str \<Rightarrow> error + field list" where
  "parse_content content0 =
     (let content = last (split_sep 10 content0)
      in case get_usernames content of Inl e \<Rightarrow> Inl e
         | Inr (era, mode, player1, player2) \<Rightarrow>
        (case (if mode = 1 then get_country_and_platform content else Inr (None, None)) of
           Inl e \<Rightarrow> Inl e
         | Inr (country, platform) \<Rightarrow>
        (case get_level content of Inl e \<Rightarrow> Inl e
         | Inr level \<Rightarrow>
        (case get_score content of Inl e \<Rightarrow> Inl e
         | Inr score \<Rightarrow>
            Inr [I era, I mode, S player1, opt player2, S level, S score,
                 opt country, opt platform]))))"

text \<open>
  A raw row is the triple \<open>[time, content, reactions]\<close> that \<open>get_data\<close> builds.
  \<open>parse_row\<close> returns \<open>[*parsed_time, *parsed_content, reactions]\<close>.
\<close>

type_synonym raw_row = "str \<times> str \<times> str"

definition parse_row :: "raw_row \<Rightarrow> error + field list" where
  "parse_row row =
     (case row of (time, content, reactions) \<Rightarrow>
        (let parsed_time = parse_time time
         in (case parse_content content of Inl e \<Rightarrow> Inl e
             | Inr parsed_content \<Rightarrow>
                 Inr ((map S parsed_time) @ parsed_content @ [S reactions]))))"

text \<open>
  The loop of \<open>main\<close> over the rows that \<open>get_data\<close> has read. Its state is the list
  \<open>parsed\<close>, which \<open>main\<close> hands to \<open>write_parsed\<close> after the loop, and the
  exceptions given to \<open>logger.warning\<close>, in the order they were logged. Reading the
  input file and writing the output file are input and output at the boundary and are
  not modelled.
\<close>

record run =
  parsed :: "field list list"
  warnings :: "error list"

fun main_loop :: "raw_row list \<Rightarrow> run \<Rightarrow> run" where
  "main_loop [] st = st"
| "main_loop (row # data) st =
     main_loop data
       (case parse_row row of
          Inr r \<Rightarrow> st\<lparr>parsed := parsed st @ [r]\<rparr>
        | Inl e \<Rightarrow> st\<lparr>warnings := warnings st @ [e]\<rparr>)"

definition main :: "raw_row list \<Rightarrow> run" where
  "main data = main_loop data \<lparr>parsed = [], warnings = []\<rparr>"

subsection \<open>The module state made explicit\<close>

text \<open>
  The state that outlives a call of the parsing functions: the module-level dictionary
  \<open>platforms\<close> (a mutable \<open>dict\<close>) and the logger, which is a sink with a minimum
  level (\<open>logger.add(sys.stderr, level="INFO")\<close> at import) and what has been written
  to it. A record written to the sink is kept as its level and the source line of the
  call; the text of a message is never read back. The functions below are the parsing
  functions once more, statement by statement, with this state passed through and every
  call of the logger in its place; an exception leaves the state as it was when raised.
\<close>

datatype level = TRACE | DEBUG | INFO | WARNING

fun severity :: "level \<Rightarrow> nat" where
  "severity TRACE = 5"
| "severity DEBUG = 10"
| "severity INFO = 20"
| "severity WARNING = 30"

record module =
  g_platforms :: "(str \<times> str list) list"
  sink_level :: level
  emitted :: "(level \<times> nat) list"

definition log :: "level \<Rightarrow> nat \<Rightarrow> module \<Rightarrow> module" where
  "log l line g =
     (if severity (sink_level g) \<le> severity l then g\<lparr>emitted := emitted g @ [(l, line)]\<rparr>
      else g)"

definition get_usernames_st ::
  "str \<Rightarrow> module \<Rightarrow> (error + (int \<times> int \<times> str \<times> str option)) \<times> module" where
  "get_usernames_st content g0 =
     (let g1 = log DEBUG 50 g0;
          (era, split_content) =
            (if contains content (ascii ''(era 1)'') then (1, drop 2 (split content))
             else (2, split content));
          g2 = log DEBUG 58 g1
      in case py_index split_content 0 of Inl e \<Rightarrow> (Inl e, g2)
         | Inr raw0 \<Rightarrow>
        (case py_index split_content 2 of Inl e \<Rightarrow> (Inl e, g2)
         | Inr raw2 \<Rightarrow>
        (case unquote raw0 of Inl e \<Rightarrow> (Inl e, g2)
         | Inr username0 \<Rightarrow>
        (case unquote raw2 of Inl e \<Rightarrow> (Inl e, g2)
         | Inr username2 \<Rightarrow>
            let g3 = log DEBUG 69 g2
            in (case py_index split_content 1 of Inl e \<Rightarrow> (Inl e, g3)
                | Inr w \<Rightarrow>
                    let (username2', mode) =
                          (if w \<noteq> ascii ''and'' then (None, 1) else (Some username2, 2));
                        mode' = (if contains content (ascii ''(2 players mode)'') then 2
                                 else mode);
                        g4 = log DEBUG 80 g3
                    in (Inr (era, mode', username0, username2'), g4))))))"

definition get_country_and_platform_st ::
  "str \<Rightarrow> module \<Rightarrow> (error + (str option \<times> str option)) \<times> module" where
  "get_country_and_platform_st content g0 =
     (let g1 = log DEBUG 86 g0
      in case py_index content (- 1) of Inl e \<Rightarrow> (Inl e, g1)
         | Inr c \<Rightarrow>
             if c \<noteq> 41 then (Inr (None, None), g1)
             else
               let data = last (split_sep 40 (take (length content - 1) content));
                   data = filter (\<lambda>x. x \<noteq> 32) data;
                   data = split_sep 45 data
               in if length data = 1 then (Inr (Some (hd data), None), g1)
                  else (case data of
                     [country, platform] \<Rightarrow>
                       let g2 = log DEBUG 101 g1
                       in (case find_platform (g_platforms g2) platform of
                             None \<Rightarrow> (Inl UnboundLocalError, g2)
                           | Some platform_name \<Rightarrow>
                               let g3 = log DEBUG 107 g2
                               in (Inr (Some country, Some platform_name), g3))
                   | _ \<Rightarrow> (Inl ValueError, g1)))"

definition get_level_st :: "str \<Rightarrow> module \<Rightarrow> (error + str) \<times> module" where
  "get_level_st content g0 =
     (let g1 = log DEBUG 115 g0;
          split_content = split content
      in case index split_content (ascii ''in'') of Inl e \<Rightarrow> (Inl e, g1)
         | Inr in_word_index \<Rightarrow>
             let level_name_index = in_word_index + 1
             in (case collect_level (drop level_name_index split_content) of
                   Inl e \<Rightarrow> (Inl e, g1)
                 | Inr level_name \<Rightarrow> (unquote (join level_name), g1)))"

definition get_score_st :: "str \<Rightarrow> module \<Rightarrow> (error + str) \<times> module" where
  "get_score_st content g0 =
     (let g1 = log DEBUG 136 g0;
          split_content = split content
      in case index split_content (ascii ''in'') of Inl e \<Rightarrow> (Inl e, g1)
         | Inr in_word_index \<Rightarrow>
             let level_score_index = int in_word_index - 1
             in (py_index split_content level_score_index, g1))"

definition parse_content_st :: "str \<Rightarrow> module \<Rightarrow> (error + field list) \<times> module" where
  "parse_content_st content0 g0 =
     (let g1 = log DEBUG 149 g0;
          g2 = log TRACE 152 g1;
          content = last (split_sep 10 content0)
      in case get_usernames_st content g2 of
           (Inl e, g3) \<Rightarrow> (Inl e, g3)
         | (Inr (era, mode, player1, player2), g3) \<Rightarrow>
        (case (if mode = 1 then get_country_and_platform_st content g3
               else (Inr (None, None), g3)) of
           (Inl e, g4) \<Rightarrow> (Inl e, g4)
         | (Inr (country, platform), g4) \<Rightarrow>
        (case get_level_st content g4 of
           (Inl e, g5) \<Rightarrow> (Inl e, g5)
         | (Inr level, g5) \<Rightarrow>
        (case get_score_st content g5 of
           (Inl e, g6) \<Rightarrow> (Inl e, g6)
         | (Inr score, g6) \<Rightarrow>
            (Inr [I era, I mode, S player1, opt player2, S level, S score,
                  opt country, opt platform], g6)))))"

subsection \<open>Names for what the claims speak of\<close>

text \<open>
  The segments of the trailing annotation, as \<open>get_country_and_platform\<close> computes
  them in its local variable \<open>data\<close>: the text after the last \<open>(\<close> of the sentence
  without its final character, with every space removed, split on \<open>-\<close>.
\<close>

definition annotation_segments :: "str \<Rightarrow> str list" where
  "annotation_segments content =
     split_sep 45
       (filter (\<lambda>x. x \<noteq> 32) (last (split_sep 40 (take (length content - 1) content))))"

text \<open>
  The local variable \<open>split_content\<close> of \<open>get_usernames\<close>: the words of the
  sentence, without the first two when the sentence holds the marker \<open>(era 1)\<close>.
\<close>

definition tokens_after_era :: "str \<Rightarrow> str list" where
  "tokens_after_era content =
     (if contains content (ascii ''(era 1)'') then drop 2 (split content) else split content)"

text \<open>
  The sentence template of a two-player event of era 2, with the two names, the score and
  the level name filled in (96 is the code point of the backtick).
\<close>

definition two_player_sentence :: "str \<Rightarrow> str \<Rightarrow> str \<Rightarrow> str \<Rightarrow> str" where
  "two_player_sentence a b score level =
     ascii ''`'' @ a @ ascii ''` and `'' @ b @ ascii ''` increased their score to '' @ score @
     ascii '' in `'' @ level @ ascii ''` (US-android)''"

section \<open>Facts about the built-in operations\<close>

lemma py_index_0: "py_index xs 0 = (case xs of [] \<Rightarrow> Inl IndexError | x # _ \<Rightarrow> Inr x)"
  by (cases xs) (simp_all add: py_index_def)

lemma py_index_m1: "py_index xs (- 1) = (if xs = [] then Inl IndexError else Inr (last xs))"
proof (cases "xs = []")
  case True
  then show ?thesis by (simp add: py_index_def)
next
  case False
  then have "nat (int (length xs) - 1) = length xs - 1" and "1 \<le> length xs"
    by (simp_all add: Suc_leI)
  with False show ?thesis by (simp add: py_index_def last_conv_nth)
qed

lemma py_index_nat:
  "py_index xs (int n) = (if n < length xs then Inr (xs ! n) else Inl IndexError)"
  by (simp add: py_index_def)

lemma split_sep_nonempty: "split_sep sep s \<noteq> []"
  by (induction s) (auto split: list.splits)

lemma length_split_sep: "length (split_sep sep s) = Suc (count_list s sep)"
  by (induction s) (auto split: list.splits simp: split_sep_nonempty)

lemma split_sep_absent: "sep \<notin> set s \<Longrightarrow> split_sep sep s = [s]"
  by (induction s) auto

lemma split_sep_first:
  "sep \<notin> set d \<Longrightarrow> split_sep sep (d @ sep # t) = d # split_sep sep t"
  by (induction d) auto

lemma index_absent: "x \<notin> set xs \<Longrightarrow> index xs x = Inl ValueError"
  by (induction xs) auto

lemma index_first: "x \<notin> set pre \<Longrightarrow> index (pre @ x # post) x = Inr (length pre)"
  by (induction pre) auto

subsection \<open>Splitting on white space\<close>

lemma split_acc_word:
  "\<forall>c \<in> set w. \<not> isspace c \<Longrightarrow> split_acc cur (w @ rest) = split_acc (cur @ w) rest"
  by (induction w arbitrary: cur) simp_all

lemma split_acc_space:
  "split_acc cur (s @ 32 # rest) = split_acc cur s @ split_acc [] rest"
  by (induction s arbitrary: cur) (simp_all add: isspace_def)

lemma split_space: "split (s @ 32 # rest) = split s @ split rest"
  by (simp add: split_def split_acc_space)

lemma split_word: "w \<noteq> [] \<Longrightarrow> \<forall>c \<in> set w. \<not> isspace c \<Longrightarrow> split w = [w]"
  using split_acc_word [of w "[]" "[]"] by (simp add: split_def)

lemma split_join:
  "\<forall>w \<in> set ws. w \<noteq> [] \<and> (\<forall>c \<in> set w. \<not> isspace c) \<Longrightarrow> split (join ws) = ws"
proof (induction ws rule: join.induct)
  case 1
  show ?case by (simp add: split_def)
next
  case (2 w)
  then show ?case by (simp add: split_word)
next
  case (3 w v ws)
  have "split (join (w # v # ws)) = split w @ split (join (v # ws))"
    using split_space [of w "join (v # ws)"] by simp
  also have "split w = [w]" using 3(2) by (simp add: split_word)
  also have "split (join (v # ws)) = v # ws" using 3 by simp
  finally show ?case by simp
qed

lemma split_acc_tokens:
  "w \<in> set (split_acc cur s) \<Longrightarrow> \<forall>c \<in> set cur. \<not> isspace c \<Longrightarrow>
     w \<noteq> [] \<and> (\<forall>c \<in> set w. \<not> isspace c)"
proof (induction cur s arbitrary: w rule: split_acc.induct)
  case (1 cur)
  then show ?case by (cases "cur = []") simp_all
next
  case (2 cur c cs)
  show ?case
  proof (cases "isspace c")
    case True
    note sp = this
    show ?thesis
    proof (cases "cur = []")
      case True
      with sp 2(1) [of w] 2(4,5) show ?thesis by simp
    next
      case False
      with sp 2(2) [of w] 2(4,5) show ?thesis by auto
    qed
  next
    case False
    with 2(3) [of w] 2(4,5) show ?thesis by simp
  qed
qed

lemma split_tokens: "w \<in> set (split s) \<Longrightarrow> w \<noteq> [] \<and> (\<forall>c \<in> set w. \<not> isspace c)"
  using split_acc_tokens [of w "[]" s] by (simp add: split_def)

lemma set_join: "c \<in> set (join ws) \<Longrightarrow> c = 32 \<or> (\<exists>w \<in> set ws. c \<in> set w)"
  by (induction ws rule: join.induct) auto

lemma join_split_no_newline: "10 \<notin> set (join (split s))"
proof
  assume "10 \<in> set (join (split s))"
  then obtain w where w: "w \<in> set (split s)" "10 \<in> set w"
    using set_join [of 10 "split s"] by auto
  from split_tokens [OF w(1)] w(2) have "\<not> isspace 10" by simp
  then show False by (simp add: isspace_def)
qed

lemma collect_level_stop:
  "\<forall>w \<in> set ws. w \<noteq> [] \<and> hd w \<noteq> 40 \<Longrightarrow> collect_level (ws @ (40 # x) # rest) = Inr ws"
proof (induction ws)
  case Nil
  show ?case by (simp add: py_index_0)
next
  case (Cons w ws)
  then show ?case by (cases w) (simp_all add: py_index_0)
qed

lemma unquote_quoted: "unquote (96 # x @ [96]) = Inr x"
  by (simp add: unquote_def py_index_0 py_index_m1)

lemma isspace_newline: "isspace 10"
  by (simp add: isspace_def)

section \<open>Facts about the parser\<close>

lemma parse_content_Inr:
  assumes "parse_content c0 = Inr r"
  obtains era mode player1 player2 country platform level score where
    "get_usernames (last (split_sep 10 c0)) = Inr (era, mode, player1, player2)"
    "(if mode = 1 then get_country_and_platform (last (split_sep 10 c0)) else Inr (None, None))
       = Inr (country, platform)"
    "get_level (last (split_sep 10 c0)) = Inr level"
    "get_score (last (split_sep 10 c0)) = Inr score"
    "r = [I era, I mode, S player1, opt player2, S level, S score, opt country, opt platform]"
  using assms unfolding parse_content_def Let_def
  by (simp split: sum.splits prod.splits)

lemma parse_content_length: "parse_content c = Inr r \<Longrightarrow> length r = 8"
  by (erule parse_content_Inr) simp

lemma main_loop_parsed:
  "parsed (main_loop data st) =
     parsed st @ map projr (filter (\<lambda>x. \<not> isl x) (map parse_row data))"
  by (induction data arbitrary: st) (auto split: sum.splits)

lemma main_loop_warnings:
  "warnings (main_loop data st) = warnings st @ map projl (filter isl (map parse_row data))"
  by (induction data arbitrary: st) (auto split: sum.splits)

lemma find_platform_None:
  "find_platform tbl p = None \<longleftrightarrow> (\<forall>entry \<in> set tbl. p \<notin> set (snd entry))"
  by (induction tbl p rule: find_platform.induct) auto

lemma get_country_and_platform_two:
  assumes "content \<noteq> []" "last content = 41" "annotation_segments content = [country, platform]"
  shows "get_country_and_platform content =
           (case find_platform platforms platform of
              None \<Rightarrow> Inl UnboundLocalError
            | Some platform_name \<Rightarrow> Inr (Some country, Some platform_name))"
  using assms
  by (simp add: get_country_and_platform_def py_index_m1 annotation_segments_def Let_def)

lemma get_usernames_Inr:
  assumes "get_usernames content = Inr (era, mode, player1, player2)"
  shows "(era = 1 \<or> era = 2) \<and> (mode = 1 \<or> mode = 2) \<and>
         (player2 \<noteq> None \<longleftrightarrow> tokens_after_era content ! 1 = ascii ''and'') \<and>
         (mode = 1 \<longleftrightarrow> tokens_after_era content ! 1 \<noteq> ascii ''and'' \<and>
                       \<not> contains content (ascii ''(2 players mode)'')) \<and>
         3 \<le> length (tokens_after_era content)"
proof -
  define toks where "toks = tokens_after_era content"
  have g: "get_usernames content =
     (case py_index toks 0 of Inl e \<Rightarrow> Inl e
         | Inr raw0 \<Rightarrow>
        (case py_index toks 2 of Inl e \<Rightarrow> Inl e
         | Inr raw2 \<Rightarrow>
        (case unquote raw0 of Inl e \<Rightarrow> Inl e
         | Inr username0 \<Rightarrow>
        (case unquote raw2 of Inl e \<Rightarrow> Inl e
         | Inr username2 \<Rightarrow>
        (case py_index toks 1 of Inl e \<Rightarrow> Inl e
         | Inr w \<Rightarrow>
            Inr (if contains content (ascii ''(era 1)'') then 1 else 2,
                 if contains content (ascii ''(2 players mode)'') then 2
                 else if w \<noteq> ascii ''and'' then 1 else 2,
                 username0,
                 if w \<noteq> ascii ''and'' then None else Some username2))))))"
    unfolding get_usernames_def toks_def tokens_after_era_def
    by (simp add: Let_def split: sum.splits)
  have i2: "py_index toks 2 = (if 2 < length toks then Inr (toks ! 2) else Inl IndexError)"
    using py_index_nat [of toks 2] by simp
  have i1: "py_index toks 1 = (if 1 < length toks then Inr (toks ! 1) else Inl IndexError)"
    using py_index_nat [of toks 1] by simp
  from assms [unfolded g] have l: "2 < length toks"
    by (simp add: i2 split: sum.splits if_splits)
  with assms [unfolded g] show ?thesis
    unfolding toks_def [symmetric]
    by (auto simp: i1 i2 split: sum.splits if_splits)
qed

lemma unquote_empty: "unquote [] = Inl IndexError"
  by (simp add: unquote_def py_index_def)

lemma get_level_no_words:
  assumes "split content = pre @ ascii ''in'' # post" "ascii ''in'' \<notin> set pre"
    "post = [] \<or> (\<exists>w ws. post = (40 # w) # ws)"
  shows "get_level content = Inl IndexError"
proof -
  have i: "index (split content) (ascii ''in'') = Inr (length pre)"
    using assms(1,2) by (simp add: index_first)
  have d: "drop (Suc (length pre)) (split content) = post"
    using assms(1) by simp
  have c: "collect_level post = Inr []"
    using assms(3) by (auto simp: py_index_0)
  show ?thesis
    by (simp add: get_level_def Let_def i d c unquote_empty)
qed

lemma parse_content_get_level_fails:
  "get_level (last (split_sep 10 content0)) = Inl e \<Longrightarrow> isl (parse_content content0)"
  unfolding parse_content_def Let_def
  by (simp split: sum.splits prod.splits)


lemma template_words:
  "\<forall>w \<in> {ascii ''and'', ascii ''increased'', ascii ''their'', ascii ''score'', ascii ''to'',
            ascii ''in'', ascii ''(US-android)''}. w \<noteq> [] \<and> (\<forall>c \<in> set w. \<not> isspace c)"
  by (simp add: ascii_def isspace_def)

lemma quoted_word:
  "\<forall>c \<in> set x. \<not> isspace c \<Longrightarrow> 96 # x @ [96] \<noteq> [] \<and> (\<forall>c \<in> set (96 # x @ [96]). \<not> isspace c)"
  by (simp add: isspace_def)

lemma two_player_sentence_tokens:
  assumes a: "\<forall>c \<in> set a. \<not> isspace c" and b: "\<forall>c \<in> set b. \<not> isspace c"
    and s: "score \<noteq> []" "\<forall>c \<in> set score. \<not> isspace c"
  shows "split (two_player_sentence a b score level) =
           [96 # a @ [96], ascii ''and'', 96 # b @ [96], ascii ''increased'', ascii ''their'',
            ascii ''score'', ascii ''to'', score] @
           ascii ''in'' # split (96 # level @ [96]) @ [ascii ''(US-android)'']"
proof -
  let ?pre = "[96 # a @ [96], ascii ''and'', 96 # b @ [96], ascii ''increased'', ascii ''their'',
            ascii ''score'', ascii ''to'', score, ascii ''in'']"
  have eq: "two_player_sentence a b score level =
              join ?pre @ 32 # ((96 # level @ [96]) @ 32 # ascii ''(US-android)'')"
    by (simp add: two_player_sentence_def ascii_def)
  have w: "\<forall>w \<in> set ?pre. w \<noteq> [] \<and> (\<forall>c \<in> set w. \<not> isspace c)"
    using template_words quoted_word [OF a] quoted_word [OF b] s by simp
  have p: "split (join ?pre) = ?pre" using w by (rule split_join)
  have l: "split (ascii ''(US-android)'') = [ascii ''(US-android)'']"
    using template_words by (simp add: split_word)
  show ?thesis
    unfolding eq split_space p l by simp
qed

lemma join_concat: "join (w # ws) = concat (w # map ((#) 32) ws)"
  by (induction ws arbitrary: w) simp_all

lemma join_Cons_first: "c # join (x # xs) = join ((c # x) # xs)"
  by (cases xs) simp_all

lemma join_snoc_last: "xs \<noteq> [] \<Longrightarrow> join xs @ s = join (butlast xs @ [last xs @ s])"
  by (induction xs rule: join.induct) simp_all

lemma quoted_level_words:
  assumes w: "\<forall>c \<in> set w. \<not> isspace c"
    and ws: "\<forall>v \<in> set ws. v \<noteq> [] \<and> hd v \<noteq> 40 \<and> (\<forall>c \<in> set v. \<not> isspace c)"
  shows "join (split (96 # concat (w # map ((#) 32) ws) @ [96]))
           = 96 # concat (w # map ((#) 32) ws) @ [96] \<and>
         (\<forall>t \<in> set (split (96 # concat (w # map ((#) 32) ws) @ [96])). hd t \<noteq> 40)"
proof -
  let ?xs = "(96 # w) # ws"
  let ?toks = "butlast ?xs @ [last ?xs @ [96]]"
  have "96 # concat (w # map ((#) 32) ws) @ [96] = (96 # join (w # ws)) @ [96]"
    by (simp only: join_concat append_Cons)
  also have "\<dots> = join ?xs @ [96]"
    by (simp only: join_Cons_first)
  also have "\<dots> = join ?toks"
    by (rule join_snoc_last) simp
  finally have q: "96 # concat (w # map ((#) 32) ws) @ [96] = join ?toks" .
  have x: "\<forall>v \<in> set ?xs. v \<noteq> [] \<and> hd v \<noteq> 40 \<and> (\<forall>c \<in> set v. \<not> isspace c)"
    using w ws by (simp add: isspace_def)
  have l: "last ?xs \<in> set ?xs" by (rule last_in_set) simp
  have b: "\<forall>v \<in> set (butlast ?xs). v \<in> set ?xs" by (blast dest: in_set_butlastD)
  have t: "\<forall>v \<in> set ?toks. v \<noteq> [] \<and> hd v \<noteq> 40 \<and> (\<forall>c \<in> set v. \<not> isspace c)"
  proof
    fix v assume "v \<in> set ?toks"
    then consider "v \<in> set (butlast ?xs)" | "v = last ?xs @ [96]" by auto
    then show "v \<noteq> [] \<and> hd v \<noteq> 40 \<and> (\<forall>c \<in> set v. \<not> isspace c)"
    proof cases
      case 1
      with b x show ?thesis by blast
    next
      case 2
      from x l have "last ?xs \<noteq> [] \<and> hd (last ?xs) \<noteq> 40 \<and> (\<forall>c \<in> set (last ?xs). \<not> isspace c)"
        by blast
      with 2 show ?thesis by (simp add: isspace_def)
    qed
  qed
  then have s: "split (join ?toks) = ?toks" by (intro split_join) blast
  show ?thesis unfolding q s using t by blast
qed

lemma two_player_sentence_single_spaced:
  assumes a: "\<forall>c \<in> set a. \<not> isspace c" and b: "\<forall>c \<in> set b. \<not> isspace c"
    and s: "score \<noteq> []" "\<forall>c \<in> set score. \<not> isspace c" and sin: "score \<noteq> ascii ''in''"
    and lj: "join (split (96 # level @ [96])) = 96 # level @ [96]"
    and lp: "\<forall>w \<in> set (split (96 # level @ [96])). hd w \<noteq> 40"
    and era2: "\<not> contains (two_player_sentence a b score level) (ascii ''(era 1)'')"
  shows "parse_content (two_player_sentence a b score level) =
           Inr [I 2, I 2, S a, S b, S level, S score, NoneF, NoneF]"
proof -
  define content where "content = two_player_sentence a b score level"
  define pre where "pre = [96 # a @ [96], ascii ''and'', 96 # b @ [96], ascii ''increased'',
            ascii ''their'', ascii ''score'', ascii ''to'', score]"
  define post where "post = split (96 # level @ [96]) @ [ascii ''(US-android)'']"
  have toks: "split content = pre @ ascii ''in'' # post"
    unfolding content_def pre_def post_def
    using two_player_sentence_tokens [OF a b s] by simp
  have len: "length pre = 8" by (simp add: pre_def)
  have t0: "py_index (split content) 0 = Inr (96 # a @ [96])"
    by (simp add: toks py_index_0 pre_def)
  have t1: "py_index (split content) 1 = Inr (ascii ''and'')"
    using py_index_nat [of "split content" 1] by (simp add: toks pre_def)
  have t2: "py_index (split content) 2 = Inr (96 # b @ [96])"
    using py_index_nat [of "split content" 2] by (simp add: toks pre_def)
  have u: "get_usernames content = Inr (2, 2, a, Some b)"
    using era2 unfolding get_usernames_def content_def [symmetric]
    by (simp add: t0 t1 t2 unquote_quoted)
  have nin: "ascii ''in'' \<notin> set pre"
    using sin by (simp add: pre_def ascii_def)
  have i: "index (split content) (ascii ''in'') = Inr 8"
    using index_first [OF nin, of post] by (simp add: toks len)
  have d: "drop 9 (split content) = post"
    by (simp add: toks len)
  have ann: "ascii ''(US-android)'' = 40 # ascii ''US-android)''"
    by (simp add: ascii_def)
  have lw: "\<forall>w \<in> set (split (96 # level @ [96])). w \<noteq> [] \<and> hd w \<noteq> 40"
    using lp split_tokens by blast
  have c: "collect_level post = Inr (split (96 # level @ [96]))"
    unfolding post_def ann using lw by (simp add: collect_level_stop)
  have l: "get_level content = Inr level"
    by (simp add: get_level_def i d c lj unquote_quoted)
  have p7: "py_index (split content) 7 = Inr score"
    using py_index_nat [of "split content" 7] by (simp add: toks pre_def)
  have sc: "get_score content = Inr score"
    by (simp add: get_score_def i p7)
  have "10 \<notin> set (96 # level @ [96])"
    using join_split_no_newline [of "96 # level @ [96]"] by (simp only: lj not_False_eq_True)
  moreover have "10 \<notin> set a" "10 \<notin> set b" "10 \<notin> set score"
    using a b s(2) isspace_newline by blast+
  ultimately have "10 \<notin> set content"
    by (simp add: content_def two_player_sentence_def ascii_def)
  then have ll: "last (split_sep 10 content) = content"
    by (simp add: split_sep_absent)
  show ?thesis
    unfolding content_def [symmetric] parse_content_def
    by (simp add: ll u l sc opt_def)
qed

subsection \<open>The state-passing functions\<close>

lemma log_globals [simp]:
  "g_platforms (log l line g) = g_platforms g" "sink_level (log l line g) = sink_level g"
  by (simp_all add: log_def)

lemma get_usernames_st_result [simp]: "fst (get_usernames_st content g) = get_usernames content"
  unfolding get_usernames_st_def get_usernames_def Let_def
  by (simp split: sum.splits prod.splits)

lemma get_usernames_st_globals [simp]:
  "g_platforms (snd (get_usernames_st content g)) = g_platforms g"
  "sink_level (snd (get_usernames_st content g)) = sink_level g"
  unfolding get_usernames_st_def Let_def
  by (simp_all split: sum.splits prod.splits)

lemma get_level_st_result [simp]: "fst (get_level_st content g) = get_level content"
  unfolding get_level_st_def get_level_def Let_def
  by (simp split: sum.splits)

lemma get_level_st_globals [simp]:
  "g_platforms (snd (get_level_st content g)) = g_platforms g"
  "sink_level (snd (get_level_st content g)) = sink_level g"
  unfolding get_level_st_def Let_def
  by (simp_all split: sum.splits)

lemma get_score_st_result [simp]: "fst (get_score_st content g) = get_score content"
  unfolding get_score_st_def get_score_def Let_def
  by (simp split: sum.splits)

lemma get_score_st_globals [simp]:
  "g_platforms (snd (get_score_st content g)) = g_platforms g"
  "sink_level (snd (get_score_st content g)) = sink_level g"
  unfolding get_score_st_def Let_def
  by (simp_all split: sum.splits)

lemma get_country_and_platform_st_result:
  "g_platforms g = platforms \<Longrightarrow>
     fst (get_country_and_platform_st content g) = get_country_and_platform content"
  unfolding get_country_and_platform_st_def get_country_and_platform_def Let_def
  by (simp split: sum.splits list.splits option.splits)

lemma get_country_and_platform_st_globals [simp]:
  "g_platforms (snd (get_country_and_platform_st content g)) = g_platforms g"
  "sink_level (snd (get_country_and_platform_st content g)) = sink_level g"
  unfolding get_country_and_platform_st_def Let_def
  by (simp_all split: sum.splits list.splits option.splits)

lemma parse_content_st_globals:
  "g_platforms (snd (parse_content_st content g)) = g_platforms g \<and>
   sink_level (snd (parse_content_st content g)) = sink_level g"
proof -
  define c where "c = last (split_sep 10 content)"
  define g2 where "g2 = log TRACE 152 (log DEBUG 149 g)"
  define u where "u = get_usernames_st c g2"
  define p where "p = (if fst (snd (projr (fst u))) = 1
                       then get_country_and_platform_st c (snd u)
                       else (Inr (None, None), snd u))"
  define l where "l = get_level_st c (snd p)"
  define s where "s = get_score_st c (snd l)"
  have g2: "g_platforms g2 = g_platforms g" "sink_level g2 = sink_level g"
    by (simp_all add: g2_def)
  have gu: "g_platforms (snd u) = g_platforms g" "sink_level (snd u) = sink_level g"
    by (simp_all add: u_def g2)
  have gp: "g_platforms (snd p) = g_platforms g" "sink_level (snd p) = sink_level g"
    by (simp_all add: p_def gu)
  have gl: "g_platforms (snd l) = g_platforms g" "sink_level (snd l) = sink_level g"
    by (simp_all add: l_def gp)
  have gs: "g_platforms (snd s) = g_platforms g" "sink_level (snd s) = sink_level g"
    by (simp_all add: s_def gl)
  have "snd (parse_content_st content g) \<in> {snd u, snd p, snd l, snd s}"
    unfolding parse_content_st_def Let_def c_def [symmetric] g2_def [symmetric]
    by (auto simp: u_def [symmetric] p_def l_def s_def split: prod.splits sum.splits)
  then show ?thesis using gu gp gl gs by auto
qed

lemma parse_content_st_result:
  assumes "g_platforms g = platforms"
  shows "fst (parse_content_st content g) = parse_content content"
  unfolding parse_content_st_def parse_content_def Let_def
  by (simp add: split_beta get_country_and_platform_st_result assms
           split: sum.splits)

section \<open>The batch driver\<close>

text \<open>
  C6. For every sequence of raw rows, the list that \<open>main\<close> hands to the writer is
  exactly the results of the rows that parse, in the order of the input; the rows that
  raise are the ones logged, each row is tried once (every row ends up either in the
  output or in the log), and the output for two batches put one after the other is the
  output of the first followed by the output of the second, so that a failing row
  changes nothing for the rows around it.
\<close>

theorem main_keeps_successes_in_order:
  "parsed (main data) = map projr (filter (\<lambda>x. \<not> isl x) (map parse_row data)) \<and>
   warnings (main data) = map projl (filter isl (map parse_row data)) \<and>
   length (parsed (main data)) + length (warnings (main data)) = length data \<and>
   parsed (main (data @ data2)) = parsed (main data) @ parsed (main data2)"
proof -
  have p: "\<And>d. parsed (main d) = map projr (filter (\<lambda>x. \<not> isl x) (map parse_row d))"
    by (simp add: main_def main_loop_parsed)
  have w: "warnings (main data) = map projl (filter isl (map parse_row data))"
    by (simp add: main_def main_loop_warnings)
  have "length (filter (\<lambda>x. \<not> isl x) (map parse_row data))
          + length (filter isl (map parse_row data)) = length (map parse_row data)"
    using sum_length_filter_compl [of isl "map parse_row data"] by simp
  then have n: "length (parsed (main data)) + length (warnings (main data)) = length data"
    by (simp add: p w)
  show ?thesis using p w n by simp
qed

theorem main_keeps_successes_in_order_witness:
  "parsed (main [(ascii ''2024T10'', ascii ''a b c 7 in Desert'', ascii ''3''),
                 (ascii ''2024T11'', ascii ''a b'', ascii ''0''),
                 (ascii ''2024T12'', ascii ''x y z 9 in Sea'', ascii ''1'')]) =
     [[S (ascii ''2024''), S (ascii ''10''), I 2, I 1, S (ascii ''a''), NoneF,
       S (ascii ''Desert''), S (ascii ''7''), NoneF, NoneF, S (ascii ''3'')],
      [S (ascii ''2024''), S (ascii ''12''), I 2, I 1, S (ascii ''x''), NoneF,
       S (ascii ''Sea''), S (ascii ''9''), NoneF, NoneF, S (ascii ''1'')]]"
proof -
  let ?data = "[(ascii ''2024T10'', ascii ''a b c 7 in Desert'', ascii ''3''),
                (ascii ''2024T11'', ascii ''a b'', ascii ''0''),
                (ascii ''2024T12'', ascii ''x y z 9 in Sea'', ascii ''1'')]"
  have e: "map projr (filter (\<lambda>x. \<not> isl x) (map parse_row ?data)) =
     [[S (ascii ''2024''), S (ascii ''10''), I 2, I 1, S (ascii ''a''), NoneF,
       S (ascii ''Desert''), S (ascii ''7''), NoneF, NoneF, S (ascii ''3'')],
      [S (ascii ''2024''), S (ascii ''12''), I 2, I 1, S (ascii ''x''), NoneF,
       S (ascii ''Sea''), S (ascii ''9''), NoneF, NoneF, S (ascii ''1'')]]"
    by code_simp
  show ?thesis
    using main_keeps_successes_in_order [of ?data "[]"] e by (simp only:)
qed

section \<open>The layout of an output row\<close>

text \<open>
  C10. A row that parses has 10 fields more than its timestamp has occurrences of
  \<open>T\<close> (code point 84): the segments of the timestamp come first, then the eight
  fields of \<open>parse_content\<close>, then the reaction count. It has the 11 fields of the
  documented layout exactly when the timestamp has one \<open>T\<close>; otherwise the eight
  content fields start at another position.
\<close>

theorem parse_row_field_count:
  assumes "parse_row (time, content, reactions) = Inr r"
  shows "length r = 10 + count_list time 84 \<and>
         (length r = 11 \<longleftrightarrow> count_list time 84 = 1) \<and>
         take (Suc (count_list time 84)) r = map S (parse_time time) \<and>
         parse_content content = Inr (take 8 (drop (Suc (count_list time 84)) r)) \<and>
         last r = S reactions"
proof -
  from assms obtain pc where pc: "parse_content content = Inr pc"
    and r: "r = map S (parse_time time) @ pc @ [S reactions]"
    by (auto simp: parse_row_def Let_def split: sum.splits)
  have l8: "length pc = 8" using pc by (rule parse_content_length)
  have lt: "length (parse_time time) = Suc (count_list time 84)"
    by (simp add: parse_time_def length_split_sep)
  show ?thesis using pc r l8 lt by simp
qed

theorem parse_row_field_count_witness:
  "parse_row (ascii ''2024T10T00'', ascii ''a b c 7 in Desert'', ascii ''3'') =
     Inr [S (ascii ''2024''), S (ascii ''10''), S (ascii ''00''), I 2, I 1, S (ascii ''a''),
          NoneF, S (ascii ''Desert''), S (ascii ''7''), NoneF, NoneF, S (ascii ''3'')] \<and>
   count_list (ascii ''2024T10T00'') 84 = 2 \<and>
   length [S (ascii ''2024''), S (ascii ''10''), S (ascii ''00''), I 2, I 1, S (ascii ''a''),
          NoneF, S (ascii ''Desert''), S (ascii ''7''), NoneF, NoneF, S (ascii ''3'')]
     = 10 + count_list (ascii ''2024T10T00'') 84"
proof -
  have h: "parse_row (ascii ''2024T10T00'', ascii ''a b c 7 in Desert'', ascii ''3'') =
     Inr [S (ascii ''2024''), S (ascii ''10''), S (ascii ''00''), I 2, I 1, S (ascii ''a''),
          NoneF, S (ascii ''Desert''), S (ascii ''7''), NoneF, NoneF, S (ascii ''3'')]"
    by code_simp
  have c: "count_list (ascii ''2024T10T00'') 84 = 2" by code_simp
  show ?thesis using h c parse_row_field_count [OF h] by blast
qed

section \<open>The timestamp\<close>

text \<open>
  A timestamp without \<open>T\<close> is not rejected: \<open>parse_time\<close> returns it as a list of
  one element. A timestamp with two \<open>T\<close> gives three elements, so the split is not at
  the first \<open>T\<close> only.
\<close>

theorem parse_time_no_T_counterexample:
  "84 \<notin> set (ascii ''2024-01-01'') \<and>
   parse_time (ascii ''2024-01-01'') = [ascii ''2024-01-01''] \<and>
   parse_time (ascii ''1T2T3'') = [ascii ''1'', ascii ''2'', ascii ''3'']"
  by code_simp

text \<open>
  C4, as amended. \<open>parse_time\<close> never fails and splits the timestamp at every
  \<open>T\<close>: the result has one element more than the timestamp has occurrences of
  \<open>T\<close>. It is the timestamp alone when there is no \<open>T\<close>; otherwise its first
  element is the text before the first \<open>T\<close> and the rest is the split of the text after
  it, which fixes every segment in its order; with exactly one \<open>T\<close> this is
  \<open>[date, time]\<close>.
\<close>

theorem parse_time_splits_at_every_T:
  "length (parse_time time) = Suc (count_list time 84) \<and>
   (84 \<notin> set time \<longrightarrow> parse_time time = [time]) \<and>
   (\<forall>date rest. time = date @ 84 # rest \<and> 84 \<notin> set date
      \<longrightarrow> parse_time time = date # parse_time rest) \<and>
   (\<forall>date rest. time = date @ 84 # rest \<and> 84 \<notin> set date \<and> 84 \<notin> set rest
      \<longrightarrow> parse_time time = [date, rest])"
  by (simp add: parse_time_def length_split_sep split_sep_absent split_sep_first)

theorem parse_time_splits_at_every_T_witness:
  "ascii ''1T2T3'' = ascii ''1'' @ 84 # ascii ''2T3'' \<and> 84 \<notin> set (ascii ''1'') \<and>
   ascii ''2T3'' = ascii ''2'' @ 84 # ascii ''3'' \<and> 84 \<notin> set (ascii ''2'') \<and>
   84 \<notin> set (ascii ''3'') \<and>
   parse_time (ascii ''1T2T3'') = [ascii ''1'', ascii ''2'', ascii ''3'']"
proof -
  have a: "ascii ''1T2T3'' = ascii ''1'' @ 84 # ascii ''2T3''" by code_simp
  have b: "84 \<notin> set (ascii ''1'')" by code_simp
  have c: "ascii ''2T3'' = ascii ''2'' @ 84 # ascii ''3''" by code_simp
  have d: "84 \<notin> set (ascii ''2'')" by code_simp
  have e: "84 \<notin> set (ascii ''3'')" by code_simp
  have 1: "parse_time (ascii ''1T2T3'') = ascii ''1'' # parse_time (ascii ''2T3'')"
    using a b parse_time_splits_at_every_T [of "ascii ''1T2T3''"] by blast
  have 2: "parse_time (ascii ''2T3'') = [ascii ''2'', ascii ''3'']"
    using c d e parse_time_splits_at_every_T [of "ascii ''2T3''"] by blast
  show ?thesis using a b c d e 1 2 by simp
qed

section \<open>The score\<close>

text \<open>
  C2, what the code does. With no word \<open>in\<close>, \<open>get_score\<close> raises ValueError
  (from \<open>list.index\<close>). When the first \<open>in\<close> has a word before it, that word is
  returned. When \<open>in\<close> is the first word there is no word before it: the index
  \<open>in_word_index - 1\<close> is \<open>-1\<close>, Python reads it from the end, and the function
  returns the last word of the sentence, a word after \<open>in\<close>, where the claim has an
  IndexError. The row is then written with that word as its score.
\<close>

theorem get_score_token_before_in:
  "(ascii ''in'' \<notin> set (split content) \<longrightarrow> get_score content = Inl ValueError) \<and>
   (\<forall>pre post. split content = pre @ ascii ''in'' # post \<and> ascii ''in'' \<notin> set pre \<and> pre \<noteq> []
      \<longrightarrow> get_score content = Inr (last pre)) \<and>
   (\<forall>post. split content = ascii ''in'' # post
      \<longrightarrow> get_score content = Inr (last (ascii ''in'' # post)))"
proof (intro conjI allI impI)
  assume "ascii ''in'' \<notin> set (split content)"
  then show "get_score content = Inl ValueError"
    by (simp add: get_score_def index_absent)
next
  fix pre post
  assume a: "split content = pre @ ascii ''in'' # post \<and> ascii ''in'' \<notin> set pre \<and> pre \<noteq> []"
  then have i: "index (split content) (ascii ''in'') = Inr (length pre)"
    by (simp add: index_first)
  from a have n: "nat (int (length pre) - 1) = length pre - 1" "0 < length pre"
    by simp_all
  have "(pre @ ascii ''in'' # post) ! (length pre - 1) = last pre"
    using a n by (simp add: nth_append last_conv_nth)
  then show "get_score content = Inr (last pre)"
    using a i n by (simp add: get_score_def py_index_def)
next
  fix post
  assume a: "split content = ascii ''in'' # post"
  then have "index (split content) (ascii ''in'') = Inr 0" by simp
  then show "get_score content = Inr (last (ascii ''in'' # post))"
    using a py_index_m1 [of "ascii ''in'' # post"] by (simp add: get_score_def)
qed

theorem get_score_token_before_in_witness:
  "split (ascii ''in a b'') = ascii ''in'' # [ascii ''a'', ascii ''b''] \<and>
   get_score (ascii ''in a b'') = Inr (ascii ''b'') \<and>
   get_level (ascii ''in a b'') = Inr (ascii ''a b'') \<and>
   parsed (main [(ascii ''2024T10'', ascii ''in a b'', ascii ''0'')]) =
     [[S (ascii ''2024''), S (ascii ''10''), I 2, I 1, S (ascii ''in''), NoneF,
       S (ascii ''a b''), S (ascii ''b''), NoneF, NoneF, S (ascii ''0'')]]"
proof -
  have a: "split (ascii ''in a b'') = ascii ''in'' # [ascii ''a'', ascii ''b'']"
    by code_simp
  have l: "get_level (ascii ''in a b'') = Inr (ascii ''a b'')" by code_simp
  have m: "parsed (main [(ascii ''2024T10'', ascii ''in a b'', ascii ''0'')]) =
     [[S (ascii ''2024''), S (ascii ''10''), I 2, I 1, S (ascii ''in''), NoneF,
       S (ascii ''a b''), S (ascii ''b''), NoneF, NoneF, S (ascii ''0'')]]"
    by code_simp
  have "get_score (ascii ''in a b'') = Inr (last (ascii ''in'' # [ascii ''a'', ascii ''b'']))"
    using a get_score_token_before_in [of "ascii ''in a b''"] by blast
  then show ?thesis using a l m by simp
qed

section \<open>The level name\<close>

text \<open>
  C9. When the last line of the content has a word \<open>in\<close> and the first \<open>in\<close>
  is the last word or is followed by a word starting with \<open>(\<close> (code point 40), no
  word of a level name is collected, \<open>get_level\<close> raises IndexError on reading the first
  character of the empty name, and the row is dropped: \<open>parse_content\<close> and
  \<open>parse_row\<close> raise, and \<open>main\<close> writes no record for it.
\<close>

theorem get_level_empty_name_IndexError:
  assumes "split (last (split_sep 10 content0)) = pre @ ascii ''in'' # post"
    and "ascii ''in'' \<notin> set pre"
    and "post = [] \<or> (\<exists>w ws. post = (40 # w) # ws)"
  shows "get_level (last (split_sep 10 content0)) = Inl IndexError \<and>
         isl (parse_content content0) \<and>
         isl (parse_row (time, content0, reactions)) \<and>
         parsed (main [(time, content0, reactions)]) = []"
proof -
  have l: "get_level (last (split_sep 10 content0)) = Inl IndexError"
    using assms by (rule get_level_no_words)
  then have p: "isl (parse_content content0)" by (rule parse_content_get_level_fails)
  then have r: "isl (parse_row (time, content0, reactions))"
    by (auto simp: parse_row_def Let_def split: sum.splits)
  then have "parsed (main [(time, content0, reactions)]) = []"
    by (auto simp: main_def split: sum.splits)
  with l p r show ?thesis by simp
qed

theorem get_level_empty_name_IndexError_witness:
  "split (last (split_sep 10 (ascii ''a b c 7 in (France)''))) =
     [ascii ''a'', ascii ''b'', ascii ''c'', ascii ''7''] @ ascii ''in'' # [40 # ascii ''France)''] \<and>
   ascii ''in'' \<notin> set [ascii ''a'', ascii ''b'', ascii ''c'', ascii ''7''] \<and>
   get_level (last (split_sep 10 (ascii ''a b c 7 in (France)''))) = Inl IndexError \<and>
   isl (parse_content (ascii ''a b c 7 in (France)'')) \<and>
   parsed (main [(ascii ''2024T10'', ascii ''a b c 7 in (France)'', ascii ''0'')]) = []"
proof -
  have a: "split (last (split_sep 10 (ascii ''a b c 7 in (France)''))) =
     [ascii ''a'', ascii ''b'', ascii ''c'', ascii ''7''] @ ascii ''in'' # [40 # ascii ''France)'']"
    by code_simp
  have b: "ascii ''in'' \<notin> set [ascii ''a'', ascii ''b'', ascii ''c'', ascii ''7'']"
    by code_simp
  have c: "[40 # ascii ''France)''] = [] \<or> (\<exists>w ws. [40 # ascii ''France)''] = (40 # w) # ws)"
    by simp
  show ?thesis
    using a b get_level_empty_name_IndexError [OF a b c, of "ascii ''2024T10''" "ascii ''0''"]
    by blast
qed


section \<open>Country and platform\<close>

text \<open>
  C1, what the code does. When the sentence ends with \<open>)\<close> (code point 41), its
  annotation has exactly two segments and the platform segment is in no alias list of
  \<open>platforms\<close>, the loop of \<open>get_country_and_platform\<close> ends without assigning
  \<open>platform_name\<close> and the function raises UnboundLocalError instead of returning the
  raw token; every mode-1 row with such a last line fails to parse.
\<close>

theorem get_country_and_platform_unmatched_alias:
  assumes "content \<noteq> []" and "last content = 41"
    and "annotation_segments content = [country, platform]"
    and "\<forall>entry \<in> set platforms. platform \<notin> set (snd entry)"
  shows "get_country_and_platform content = Inl UnboundLocalError \<and>
         (\<forall>content0 era player1 player2.
            last (split_sep 10 content0) = content \<and>
            get_usernames content = Inr (era, 1, player1, player2)
            \<longrightarrow> parse_content content0 = Inl UnboundLocalError)"
proof -
  have n: "find_platform platforms platform = None"
    using assms(4) by (simp add: find_platform_None)
  have g: "get_country_and_platform content = Inl UnboundLocalError"
    using get_country_and_platform_two [OF assms(1,2,3)] n by simp
  then show ?thesis
    by (auto simp: parse_content_def Let_def)
qed

theorem get_country_and_platform_unmatched_alias_witness:
  "last (ascii ''`Alice` increased score to 7 in Desert (France - xbox)'') = 41 \<and>
   annotation_segments (ascii ''`Alice` increased score to 7 in Desert (France - xbox)'')
     = [ascii ''France'', ascii ''xbox''] \<and>
   get_usernames (ascii ''`Alice` increased score to 7 in Desert (France - xbox)'')
     = Inr (2, 1, ascii ''Alice'', None) \<and>
   get_country_and_platform (ascii ''`Alice` increased score to 7 in Desert (France - xbox)'')
     = Inl UnboundLocalError \<and>
   parse_content (ascii ''`Alice` increased score to 7 in Desert (France - xbox)'')
     = Inl UnboundLocalError"
proof -
  let ?c = "ascii ''`Alice` increased score to 7 in Desert (France - xbox)''"
  have a: "?c \<noteq> []" by code_simp
  have b: "last ?c = 41" by code_simp
  have c: "annotation_segments ?c = [ascii ''France'', ascii ''xbox'']" by code_simp
  have d: "\<forall>entry \<in> set platforms. ascii ''xbox'' \<notin> set (snd entry)" by code_simp
  have e: "last (split_sep 10 ?c) = ?c" by code_simp
  have f: "get_usernames ?c = Inr (2, 1, ascii ''Alice'', None)" by code_simp
  show ?thesis
    using b c e f get_country_and_platform_unmatched_alias [OF a b c d] by blast
qed

text \<open>
  The alias table does not hold the empty string: a sentence ending in \<open>(France -)\<close>
  has the segments \<open>France\<close> and the empty string, no alias matches, and the function
  raises instead of returning \<open>ios\<close>.
\<close>

theorem empty_platform_not_ios_counterexample:
  "last (ascii ''`Alice` increased score to 7 in Desert (France -)'') = 41 \<and>
   annotation_segments (ascii ''`Alice` increased score to 7 in Desert (France -)'')
     = [ascii ''France'', []] \<and>
   get_country_and_platform (ascii ''`Alice` increased score to 7 in Desert (France -)'')
     = Inl UnboundLocalError \<and>
   get_country_and_platform (ascii ''`Alice` increased score to 7 in Desert (France -)'')
     \<noteq> Inr (Some (ascii ''France''), Some (ascii ''ios''))"
  by code_simp

text \<open>
  C8, as amended. The second alias of \<open>ios\<close> is the single character U+F8FF (code
  point 63743): for every sentence ending with \<open>)\<close> whose annotation has two segments,
  the second being that character, \<open>get_country_and_platform\<close> returns the platform
  \<open>ios\<close>. The empty string is an alias of no platform.
\<close>

theorem private_use_alias_normalizes_to_ios:
  assumes "content \<noteq> []" and "last content = 41"
    and "annotation_segments content = [country, [63743]]"
  shows "get_country_and_platform content = Inr (Some country, Some (ascii ''ios'')) \<and>
         find_platform platforms [] = None"
proof -
  have i: "find_platform platforms [63743] = Some (ascii ''ios'')" by code_simp
  have e: "find_platform platforms [] = None" by code_simp
  show ?thesis
    using get_country_and_platform_two [OF assms] i e by simp
qed

theorem private_use_alias_normalizes_to_ios_witness:
  "last (ascii ''`Alice` increased score to 7 in Desert (France - '' @ [63743, 41]) = 41 \<and>
   annotation_segments (ascii ''`Alice` increased score to 7 in Desert (France - '' @ [63743, 41])
     = [ascii ''France'', [63743]] \<and>
   get_country_and_platform (ascii ''`Alice` increased score to 7 in Desert (France - '' @ [63743, 41])
     = Inr (Some (ascii ''France''), Some (ascii ''ios''))"
proof -
  let ?c = "ascii ''`Alice` increased score to 7 in Desert (France - '' @ [63743, 41]"
  have a: "?c \<noteq> []" by code_simp
  have b: "last ?c = 41" by code_simp
  have c: "annotation_segments ?c = [ascii ''France'', [63743]]" by code_simp
  show ?thesis
    using b c private_use_alias_normalizes_to_ios [OF a b c] by blast
qed


section \<open>Players and mode\<close>

text \<open>
  A sentence whose second word is not \<open>and\<close> but which holds \<open>(2 players mode)\<close>
  gets mode 2 while its second player stays \<open>None\<close>.
\<close>

theorem forced_mode_2_without_player2_counterexample:
  "tokens_after_era (ascii ''`Alice` increased score to 7 in Desert (2 players mode)'') ! 1
     \<noteq> ascii ''and'' \<and>
   contains (ascii ''`Alice` increased score to 7 in Desert (2 players mode)'')
     (ascii ''(2 players mode)'') \<and>
   parse_content (ascii ''`Alice` increased score to 7 in Desert (2 players mode)'') =
     Inr [I 2, I 2, S (ascii ''Alice''), NoneF, S (ascii ''Desert''), S (ascii ''7''),
          NoneF, NoneF]"
  by code_simp

text \<open>
  C3, as amended. In every record that \<open>parse_content\<close> produces (fields 1 and 3 are
  mode and player2), mode is 1 or 2. Player2 is present exactly when the second word
  after the era marker is \<open>and\<close>, and then mode is 2; with mode 1, player2 is absent.
  A sentence that holds \<open>(2 players mode)\<close> is forced to mode 2, and mode is 2 exactly
  when the second word is \<open>and\<close> or the sentence holds that marker. So the converse
  fails: mode 2 with player2 absent occurs, exactly for the sentences whose second word is
  not \<open>and\<close> and which hold the marker.
\<close>

theorem player2_present_implies_mode_2:
  assumes "parse_content content0 = Inr r"
  shows "length r = 8 \<and> (r ! 1 = I 1 \<or> r ! 1 = I 2) \<and>
         (r ! 3 \<noteq> NoneF \<longrightarrow> r ! 1 = I 2) \<and>
         (r ! 1 = I 1 \<longrightarrow> r ! 3 = NoneF) \<and>
         (r ! 3 \<noteq> NoneF \<longleftrightarrow>
            tokens_after_era (last (split_sep 10 content0)) ! 1 = ascii ''and'') \<and>
         (contains (last (split_sep 10 content0)) (ascii ''(2 players mode)'')
            \<longrightarrow> r ! 1 = I 2) \<and>
         (r ! 1 = I 2 \<longleftrightarrow>
            tokens_after_era (last (split_sep 10 content0)) ! 1 = ascii ''and'' \<or>
            contains (last (split_sep 10 content0)) (ascii ''(2 players mode)'')) \<and>
         (r ! 1 = I 2 \<and> r ! 3 = NoneF \<longleftrightarrow>
            tokens_after_era (last (split_sep 10 content0)) ! 1 \<noteq> ascii ''and'' \<and>
            contains (last (split_sep 10 content0)) (ascii ''(2 players mode)''))"
proof -
  from assms obtain era mode player1 player2 country platform level score where
    u: "get_usernames (last (split_sep 10 content0)) = Inr (era, mode, player1, player2)"
    and r: "r = [I era, I mode, S player1, opt player2, S level, S score, opt country,
                 opt platform]"
    by (rule parse_content_Inr)
  have o: "opt player2 \<noteq> NoneF \<longleftrightarrow> player2 \<noteq> None"
    by (cases player2) (simp_all add: opt_def)
  have n: "r ! 1 = I mode" "r ! 3 = opt player2" "length r = 8"
    by (simp_all add: r)
  show ?thesis
    using get_usernames_Inr [OF u] o unfolding n by auto
qed

theorem player2_present_implies_mode_2_witness:
  "parse_content (ascii ''`Al` got 7 in Sea (2 players mode)'') =
     Inr [I 2, I 2, S (ascii ''Al''), NoneF, S (ascii ''Sea''), S (ascii ''7''), NoneF, NoneF] \<and>
   contains (last (split_sep 10 (ascii ''`Al` got 7 in Sea (2 players mode)'')))
     (ascii ''(2 players mode)'') \<and>
   [I 2, I 2, S (ascii ''Al''), NoneF, S (ascii ''Sea''), S (ascii ''7''), NoneF, NoneF] ! 1 = I 2"
proof -
  let ?r = "[I 2, I 2, S (ascii ''Al''), NoneF, S (ascii ''Sea''), S (ascii ''7''), NoneF, NoneF]"
  have a: "parse_content (ascii ''`Al` got 7 in Sea (2 players mode)'') = Inr ?r"
    by code_simp
  have b: "contains (last (split_sep 10 (ascii ''`Al` got 7 in Sea (2 players mode)'')))
     (ascii ''(2 players mode)'')"
    by code_simp
  show ?thesis
    using a b player2_present_implies_mode_2 [OF a] by blast
qed

section \<open>Determinism\<close>

text \<open>
  C7. In the model that threads the state of the module through every call,
  \<open>parse_content\<close> leaves the table \<open>platforms\<close> and the level of the sink as they
  were: the only thing it writes is the log. From every state in which the table is the
  one of the source, the result is the value of the function \<open>parse_content\<close> of the
  content alone, whatever has been logged and whatever the level of the sink; so a second
  invocation on the same string, in the state the first one left, returns the same record
  or raises the same exception.
\<close>

theorem parse_content_st_deterministic:
  "g_platforms (snd (parse_content_st content g)) = g_platforms g \<and>
   sink_level (snd (parse_content_st content g)) = sink_level g \<and>
   (g_platforms g = platforms \<longrightarrow>
      fst (parse_content_st content (snd (parse_content_st content g)))
        = fst (parse_content_st content g) \<and>
      fst (parse_content_st content g) = parse_content content \<and>
      (\<forall>g'. g_platforms g' = platforms \<longrightarrow>
         fst (parse_content_st content g') = fst (parse_content_st content g)))"
proof (intro conjI impI allI)
  show "g_platforms (snd (parse_content_st content g)) = g_platforms g"
    using parse_content_st_globals by blast
  show "sink_level (snd (parse_content_st content g)) = sink_level g"
    using parse_content_st_globals by blast
next
  assume p: "g_platforms g = platforms"
  then have q: "g_platforms (snd (parse_content_st content g)) = platforms"
    using parse_content_st_globals [of content g] by simp
  show "fst (parse_content_st content g) = parse_content content"
    using p by (rule parse_content_st_result)
  show "fst (parse_content_st content (snd (parse_content_st content g)))
          = fst (parse_content_st content g)"
    by (simp only: parse_content_st_result [OF p] parse_content_st_result [OF q])
  fix g' :: module
  assume "g_platforms g' = platforms"
  then show "fst (parse_content_st content g') = fst (parse_content_st content g)"
    by (simp only: parse_content_st_result [OF p] parse_content_st_result)
qed

theorem parse_content_st_deterministic_witness:
  "emitted (snd (parse_content_st
       (ascii ''`Alice` increased score to 7 in Desert (France - web)'')
       \<lparr>g_platforms = platforms, sink_level = TRACE, emitted = []\<rparr>)) =
     [(DEBUG, 149), (TRACE, 152), (DEBUG, 50), (DEBUG, 58), (DEBUG, 69), (DEBUG, 80),
      (DEBUG, 86), (DEBUG, 101), (DEBUG, 107), (DEBUG, 115), (DEBUG, 136)] \<and>
   fst (parse_content_st (ascii ''`Alice` increased score to 7 in Desert (France - web)'')
       \<lparr>g_platforms = platforms, sink_level = TRACE, emitted = []\<rparr>) =
     Inr [I 2, I 1, S (ascii ''Alice''), NoneF, S (ascii ''Desert''), S (ascii ''7''),
          S (ascii ''France''), S (ascii ''web'')] \<and>
   fst (parse_content_st (ascii ''`Alice` increased score to 7 in Desert (France - web)'')
         (snd (parse_content_st (ascii ''`Alice` increased score to 7 in Desert (France - web)'')
            \<lparr>g_platforms = platforms, sink_level = TRACE, emitted = []\<rparr>))) =
     Inr [I 2, I 1, S (ascii ''Alice''), NoneF, S (ascii ''Desert''), S (ascii ''7''),
          S (ascii ''France''), S (ascii ''web'')]"
proof -
  let ?c = "ascii ''`Alice` increased score to 7 in Desert (France - web)''"
  let ?g = "\<lparr>g_platforms = platforms, sink_level = TRACE, emitted = []\<rparr>"
  have h: "g_platforms ?g = platforms" by simp
  have e: "emitted (snd (parse_content_st ?c ?g)) =
     [(DEBUG, 149), (TRACE, 152), (DEBUG, 50), (DEBUG, 58), (DEBUG, 69), (DEBUG, 80),
      (DEBUG, 86), (DEBUG, 101), (DEBUG, 107), (DEBUG, 115), (DEBUG, 136)]"
    by code_simp
  have r: "fst (parse_content_st ?c ?g) =
     Inr [I 2, I 1, S (ascii ''Alice''), NoneF, S (ascii ''Desert''), S (ascii ''7''),
          S (ascii ''France''), S (ascii ''web'')]"
    by code_simp
  have "fst (parse_content_st ?c (snd (parse_content_st ?c ?g))) = fst (parse_content_st ?c ?g)"
    using h parse_content_st_deterministic [of ?c ?g] by blast
  then show ?thesis using e r by (simp only: simp_thms)
qed

section \<open>Two-player sentences of era 2\<close>

text \<open>
  The template does not parse as the claim says for every name and level name: a level
  name with a word that starts with \<open>(\<close> is cut before that word and keeps its
  opening backtick, and a name with a space in it moves the word \<open>and\<close> away from
  the second position, which makes the sentence a one-player sentence whose annotation
  \<open>(US-android)\<close> matches no alias.
\<close>

theorem two_player_sentence_arbitrary_counterexample:
  "two_player_sentence (ascii ''A'') (ascii ''B'') (ascii ''42'') (ascii ''Lv (hard)'') =
     ascii ''`A` and `B` increased their score to 42 in `Lv (hard)` (US-android)'' \<and>
   parse_content
     (two_player_sentence (ascii ''A'') (ascii ''B'') (ascii ''42'') (ascii ''Lv (hard)'')) =
     Inr [I 2, I 2, S (ascii ''A''), S (ascii ''B''), S (ascii ''`Lv''), S (ascii ''42''),
          NoneF, NoneF] \<and>
   ascii ''`Lv'' \<noteq> ascii ''Lv (hard)'' \<and>
   parse_content
     (two_player_sentence (ascii ''Al ice'') (ascii ''B'') (ascii ''42'') (ascii ''Level'')) =
     Inl UnboundLocalError"
  by code_simp

text \<open>
  C5, as amended. Take a sentence of the template
  \<open>`A` and `B` increased their score to 42 in `Level` (US-android)\<close> in which the names
  \<open>A\<close> and \<open>B\<close> and the score hold no white space, the score is a word other than
  \<open>in\<close>, the level name is a word \<open>w\<close> followed by any number of words, each after
  a single space, none of these empty or starting with \<open>(\<close>, and the marker
  \<open>(era 1)\<close> does not occur (era 2). Then \<open>parse_content\<close> returns era 2, mode 2,
  the two names, the level name, the score, and neither country nor platform.
\<close>

theorem two_player_sentence_fields:
  assumes a: "\<forall>c \<in> set a. \<not> isspace c" and b: "\<forall>c \<in> set b. \<not> isspace c"
    and s: "score \<noteq> []" "\<forall>c \<in> set score. \<not> isspace c" and sin: "score \<noteq> ascii ''in''"
    and w: "\<forall>c \<in> set w. \<not> isspace c"
    and ws: "\<forall>v \<in> set ws. v \<noteq> [] \<and> hd v \<noteq> 40 \<and> (\<forall>c \<in> set v. \<not> isspace c)"
    and era2: "\<not> contains (two_player_sentence a b score (concat (w # map ((#) 32) ws)))
                 (ascii ''(era 1)'')"
  shows "parse_content (two_player_sentence a b score (concat (w # map ((#) 32) ws))) =
           Inr [I 2, I 2, S a, S b, S (concat (w # map ((#) 32) ws)), S score, NoneF, NoneF]"
proof -
  note q = quoted_level_words [OF w ws]
  show ?thesis
    using a b s sin conjunct1 [OF q] conjunct2 [OF q] era2
    by (rule two_player_sentence_single_spaced)
qed

theorem two_player_sentence_fields_witness:
  "two_player_sentence (ascii ''A'') (ascii ''B'') (ascii ''42'')
       (concat (ascii ''Big'' # map ((#) 32) [ascii ''Level'', ascii ''2''])) =
     ascii ''`A` and `B` increased their score to 42 in `Big Level 2` (US-android)'' \<and>
   parse_content (ascii ''`A` and `B` increased their score to 42 in `Big Level 2` (US-android)'')
     = Inr [I 2, I 2, S (ascii ''A''), S (ascii ''B''), S (ascii ''Big Level 2''),
            S (ascii ''42''), NoneF, NoneF]"
proof -
  let ?l = "concat (ascii ''Big'' # map ((#) 32) [ascii ''Level'', ascii ''2''])"
  have e: "two_player_sentence (ascii ''A'') (ascii ''B'') (ascii ''42'') ?l =
     ascii ''`A` and `B` increased their score to 42 in `Big Level 2` (US-android)''"
    by code_simp
  have n: "?l = ascii ''Big Level 2''" by code_simp
  have a: "\<forall>c \<in> set (ascii ''A''). \<not> isspace c" by code_simp
  have b: "\<forall>c \<in> set (ascii ''B''). \<not> isspace c" by code_simp
  have s1: "ascii ''42'' \<noteq> []" by code_simp
  have s2: "\<forall>c \<in> set (ascii ''42''). \<not> isspace c" by code_simp
  have s3: "ascii ''42'' \<noteq> ascii ''in''" by code_simp
  have w: "\<forall>c \<in> set (ascii ''Big''). \<not> isspace c" by code_simp
  have ws: "\<forall>v \<in> set [ascii ''Level'', ascii ''2''].
              v \<noteq> [] \<and> hd v \<noteq> 40 \<and> (\<forall>c \<in> set v. \<not> isspace c)"
    by code_simp
  have r: "\<not> contains (two_player_sentence (ascii ''A'') (ascii ''B'') (ascii ''42'') ?l)
              (ascii ''(era 1)'')"
    by code_simp
  have "parse_content (two_player_sentence (ascii ''A'') (ascii ''B'') (ascii ''42'') ?l) =
          Inr [I 2, I 2, S (ascii ''A''), S (ascii ''B''), S ?l, S (ascii ''42''), NoneF, NoneF]"
    using a b s1 s2 s3 w ws r by (rule two_player_sentence_fields)
  then show ?thesis using e n by (simp only: simp_thms)
qed

end
